theory Spec2Isabelle
  imports Main
begin

section \<open>Views, events and the orchestrator's state\<close>

text \<open>
  The orchestration core is \<^verbatim>\<open>internal/tui/core/app.go\<close> and
  \<^verbatim>\<open>internal/tui/core/pages.go\<close>. Both wrap the terminal toolkit: \<^verbatim>\<open>App\<close> embeds
  the toolkit's \<^verbatim>\<open>Application\<close> (which owns the input focus) and \<^verbatim>\<open>Pages\<close> embeds the
  toolkit's page container. The toolkit is an external library; the part of its state the
  wrappers read and write is kept in the same record as the wrapper's own fields.

  A \<^verbatim>\<open>tview.Primitive\<close> that can hold the focus is either a view or the page
  container itself. A view is an opaque handle that can report its component identity.
  Views are leaves: a view has focus exactly when it is the primitive the application
  reports as focused. The container carries its own focus flag (that of its embedded
  box), which the toolkit sets and clears apart from the application's focus. The views
  shown as pages are leaf views; the container is not a page of itself. A nil
  \<^verbatim>\<open>Primitive\<close> is \<open>None\<close>; the operations that take a primitive as argument take a
  non-nil one.
\<close>

type_synonym Identifier = string

datatype View = View (handle: nat) (viewIdentifier: Identifier)

datatype Primitive = Leaf View | PagesBox Identifier

fun GetIdentifier :: "Primitive \<Rightarrow> Identifier" where
  "GetIdentifier (Leaf v) = viewIdentifier v"
| "GetIdentifier (PagesBox i) = i"

datatype MessageType = manager_StyleChanged | manager_FocusChanged

datatype EventMsg = EventMsg (MsgType: MessageType) (Data: "Identifier option")

text \<open>An entry of the toolkit's page container: name, view, resize flag, visibility.\<close>

record page =
  Name :: string
  Item :: View
  Resize :: bool
  Visible :: bool

text \<open>
  Styles are loaded by the configuration package for a style name and a symbol set; their
  colour tables play no part here.
\<close>

datatype Styles = Styles (StyleName: string) (Symbols: bool)

record StylesConfig =
  CurrentStyle :: string
  BetterSymbols :: bool

datatype error = Error string

text \<open>
  \<^verbatim>\<open>App\<close>. \<open>focus\<close> is the embedded application's focused primitive (what
  \<^verbatim>\<open>GetFocus\<close> returns), \<open>pages\<close> the entries of the embedded page container in order,
  \<open>boxFocus\<close> the focus flag of the container's own box, \<open>setFocus\<close> whether the
  container has been handed a focus delegate (it has once it received focus itself),
  \<open>pagesStyle\<close> what \<^verbatim>\<open>Pages.SetStyle\<close> applied last, \<open>mainStyles\<close> what
  \<^verbatim>\<open>LoadMainStyles\<close> installed last, and \<open>broadcasts\<close> the events handed to the
  element manager's \<^verbatim>\<open>Broadcast\<close>, oldest first. \<open>config\<close> holds the \<^verbatim>\<open>Styles\<close>
  section of the configuration. The fields \<^verbatim>\<open>dao\<close> and \<^verbatim>\<open>keys\<close> are only read by
  their getters and are left out.
\<close>

record App =
  focus :: "Primitive option"
  pages :: "page list"
  boxFocus :: bool
  setFocus :: bool
  pagesStyle :: "Styles option"
  mainStyles :: "Styles option"
  broadcasts :: "EventMsg list"
  styles :: "Styles option"
  config :: StylesConfig
  previousFocus :: "Primitive option"

subsection \<open>The toolkit: focus and the page container\<close>

definition GetFocus :: "App \<Rightarrow> Primitive option" where
  "GetFocus a = focus a"

text \<open>
  \<^verbatim>\<open>Blur\<close> clears the focus flag of a primitive's box. A view's flag is read off the
  application's focus, so only the container's flag is stored.
\<close>

definition Blur :: "Primitive \<Rightarrow> App \<Rightarrow> App" where
  "Blur p a = (case p of Leaf v \<Rightarrow> a | PagesBox i \<Rightarrow> a\<lparr>boxFocus := False\<rparr>)"

text \<open>
  The first half of the application's \<^verbatim>\<open>SetFocus\<close>: the primitive focused so far is
  blurred and the new one stored. For a view this is all of it, since a view's own
  \<^verbatim>\<open>Focus\<close> only marks it focused.
\<close>

definition take_focus :: "Primitive \<Rightarrow> App \<Rightarrow> App" where
  "take_focus p a = (case focus a of None \<Rightarrow> a | Some q \<Rightarrow> Blur q a)\<lparr>focus := Some p\<rparr>"

definition HasFocus :: "View \<Rightarrow> App \<Rightarrow> bool" where
  "HasFocus v a = (focus a = Some (Leaf v))"

text \<open>
  The container has focus when one of its pages' views has, or when its own box has.
\<close>

definition Pages_HasFocus :: "App \<Rightarrow> bool" where
  "Pages_HasFocus a = (list_ex (\<lambda>pg. HasFocus (Item pg) a) (pages a) \<or> boxFocus a)"

text \<open>The view of the last visible page, found by one pass over the entries.\<close>

definition topItem :: "page list \<Rightarrow> View option" where
  "topItem ps = fold (\<lambda>pg t. if Visible pg then Some (Item pg) else t) ps None"

text \<open>
  The container's \<^verbatim>\<open>Focus\<close> with the delegate it holds: without a delegate nothing
  happens; otherwise the delegate (the application's \<^verbatim>\<open>SetFocus\<close>) is called with the
  view of the top visible page, and when no page is visible the container's own box takes
  the focus flag.
\<close>

definition Pages_Focus :: "App \<Rightarrow> App" where
  "Pages_Focus a =
     (if \<not> setFocus a then a
      else case topItem (pages a) of
             None \<Rightarrow> a\<lparr>boxFocus := True\<rparr>
           | Some t \<Rightarrow> take_focus (Leaf t) a)"

text \<open>
  The application's \<^verbatim>\<open>SetFocus\<close>: after blurring the old primitive and storing the
  new one it calls the new primitive's \<^verbatim>\<open>Focus\<close> with itself as delegate. The
  container keeps the delegate and focuses as above.
\<close>

definition Application_SetFocus :: "Primitive \<Rightarrow> App \<Rightarrow> App" where
  "Application_SetFocus p a =
     (case p of
        Leaf v \<Rightarrow> take_focus p a
      | PagesBox i \<Rightarrow> Pages_Focus ((take_focus p a)\<lparr>setFocus := True\<rparr>))"

text \<open>
  The application's \<^verbatim>\<open>SetRoot\<close> with the page container as root gives the container
  the focus; \<open>i\<close> is the container's identity.
\<close>

definition SetRoot :: "Identifier \<Rightarrow> App \<Rightarrow> App" where
  "SetRoot i a = Application_SetFocus (PagesBox i) a"

text \<open>Deleting the first entry of a given name.\<close>

fun remove_page :: "string \<Rightarrow> page list \<Rightarrow> page list" where
  "remove_page n [] = []"
| "remove_page n (pg # ps) = (if Name pg = n then ps else pg # remove_page n ps)"

text \<open>
  After a visible page was removed the container keeps at least one page visible: unless
  a page before the last one is visible, the last one is made so.
\<close>

fun ensure_visible :: "page list \<Rightarrow> page list" where
  "ensure_visible [] = []"
| "ensure_visible [pg] = [pg\<lparr>Visible := True\<rparr>]"
| "ensure_visible (pg # ps) = (if Visible pg then pg # ps else pg # ensure_visible ps)"

text \<open>
  The container's \<^verbatim>\<open>AddPage\<close>: a page of the same name is overwritten (its entry is
  deleted, the new one appended); if the container had focus, it refocuses.
\<close>

definition tview_AddPage :: "string \<Rightarrow> View \<Rightarrow> bool \<Rightarrow> bool \<Rightarrow> App \<Rightarrow> App" where
  "tview_AddPage name item resize visible a =
     (let hasFocus = Pages_HasFocus a;
          a' = a\<lparr>pages := remove_page name (pages a) @
                  [\<lparr>Name = name, Item = item, Resize = resize, Visible = visible\<rparr>]\<rparr>
      in if hasFocus then Pages_Focus a' else a')"

text \<open>
  The container's \<^verbatim>\<open>RemovePage\<close>: the entry of that name, if any, is deleted; if it was
  visible, visibility is re-established; if the container had focus, it refocuses.
\<close>

definition tview_RemovePage :: "string \<Rightarrow> App \<Rightarrow> App" where
  "tview_RemovePage name a =
     (let hasFocus = Pages_HasFocus a;
          isVisible = (case find (\<lambda>pg. Name pg = name) (pages a) of
                         None \<Rightarrow> False
                       | Some pg \<Rightarrow> Visible pg);
          ps = remove_page name (pages a);
          a' = a\<lparr>pages := (if isVisible then ensure_visible ps else ps)\<rparr>
      in if hasFocus then Pages_Focus a' else a')"

definition tview_HasPage :: "string \<Rightarrow> App \<Rightarrow> bool" where
  "tview_HasPage name a = list_ex (\<lambda>pg. Name pg = name) (pages a)"

definition Broadcast :: "EventMsg \<Rightarrow> App \<Rightarrow> App" where
  "Broadcast msg a = a\<lparr>broadcasts := broadcasts a @ [msg]\<rparr>"

subsection \<open>\<^verbatim>\<open>app.go\<close>: focus handling\<close>

definition FocusChanged :: "Primitive \<Rightarrow> App \<Rightarrow> App" where
  "FocusChanged p a = Broadcast (EventMsg manager_FocusChanged (Some (GetIdentifier p))) a"

definition SetPreviousFocus :: "App \<Rightarrow> App" where
  "SetPreviousFocus a = a\<lparr>previousFocus := GetFocus a\<rparr>"

definition SetFocus :: "Primitive \<Rightarrow> App \<Rightarrow> App" where
  "SetFocus p a =
     FocusChanged p (Application_SetFocus p (a\<lparr>previousFocus := GetFocus a\<rparr>))"

definition GiveBackFocus :: "App \<Rightarrow> App" where
  "GiveBackFocus a =
     (case previousFocus a of
        None \<Rightarrow> a
      | Some p \<Rightarrow> (SetFocus p a)\<lparr>previousFocus := None\<rparr>)"

subsection \<open>\<^verbatim>\<open>pages.go\<close>: the page wrappers\<close>

definition AddPage :: "Identifier \<Rightarrow> View \<Rightarrow> bool \<Rightarrow> bool \<Rightarrow> App \<Rightarrow> App" where
  "AddPage view page resize visable a =
     (let a1 = SetPreviousFocus a;
          a2 = tview_AddPage view page resize visable a1
      in if visable \<and> HasFocus page a2 then FocusChanged (Leaf page) a2 else a2)"

definition RemovePage :: "Identifier \<Rightarrow> App \<Rightarrow> App" where
  "RemovePage view a = GiveBackFocus (tview_RemovePage view a)"

definition HasPage :: "Identifier \<Rightarrow> App \<Rightarrow> bool" where
  "HasPage view a = tview_HasPage view a"

subsection \<open>\<^verbatim>\<open>app.go\<close>: construction and style changes\<close>

text \<open>
  The configuration package's \<^verbatim>\<open>UpdateConfig\<close>, \<^verbatim>\<open>LoadStyles\<close> and
  \<^verbatim>\<open>LoadKeybindings\<close> read and write files; their outcomes are parameters. As in the
  source, \<^verbatim>\<open>LoadStyles\<close> yields a pointer and an error, and the pointer is stored
  whatever the error is. A call either returns, ends the process (\<^verbatim>\<open>log.Fatal\<close>) or
  panics on a nil pointer.

  Modelled from the spec: \<^verbatim>\<open>Pages.SetStyle\<close> and \<^verbatim>\<open>Styles.LoadMainStyles\<close> are not
  in the source; after the spec the reloaded styles are applied to the Page Stack, which
  is recorded in \<open>pagesStyle\<close>, and \<open>mainStyles\<close> records what the toolkit was given.
\<close>

record env =
  UpdateConfig :: "StylesConfig \<Rightarrow> error option"
  LoadStyles :: "string \<Rightarrow> bool \<Rightarrow> Styles option \<times> error option"
  LoadKeybindings :: "error option"

datatype 'a outcome = Returned 'a | Fatal string | Panic

definition NewApp :: "env \<Rightarrow> StylesConfig \<Rightarrow> App outcome" where
  "NewApp e appConfig =
     (case LoadStyles e (CurrentStyle appConfig) (BetterSymbols appConfig) of
        (_, Some err) \<Rightarrow> Fatal ''Failed to load styles''
      | (None, None) \<Rightarrow> Panic
      | (Some st, None) \<Rightarrow>
          (case LoadKeybindings e of
             Some err \<Rightarrow> Fatal ''Failed to load keybindings''
           | None \<Rightarrow>
               Returned \<lparr>focus = None, pages = [], boxFocus = False, setFocus = False,
                 pagesStyle = Some st, mainStyles = Some st, broadcasts = [],
                 styles = Some st, config = appConfig, previousFocus = None\<rparr>))"

definition SetStyle :: "env \<Rightarrow> string \<Rightarrow> App \<Rightarrow> (App \<times> error option) outcome" where
  "SetStyle e styleName a =
     (let a1 = a\<lparr>config := (config a)\<lparr>CurrentStyle := styleName\<rparr>\<rparr>
      in case UpdateConfig e (config a1) of
           Some err \<Rightarrow> Returned (a1, Some err)
         | None \<Rightarrow>
             (case LoadStyles e (CurrentStyle (config a1)) (BetterSymbols (config a1)) of
                (st, Some err) \<Rightarrow> Returned (a1\<lparr>styles := st\<rparr>, Some err)
              | (None, None) \<Rightarrow> Panic
              | (Some st, None) \<Rightarrow>
                  Returned
                    (Broadcast (EventMsg manager_StyleChanged None)
                       (a1\<lparr>styles := Some st, mainStyles := Some st, pagesStyle := Some st\<rparr>),
                     None)))"

subsection \<open>Sequences of page operations\<close>

text \<open>
  \<^verbatim>\<open>ShowPage\<close> and \<^verbatim>\<open>HidePage\<close> are the spec's names for \<^verbatim>\<open>Pages.AddPage\<close> and
  \<^verbatim>\<open>Pages.RemovePage\<close>. The Focus Stack of the spec is the field \<^verbatim>\<open>previousFocus\<close>:
  empty when nil, one entry otherwise. The Page Stack is the list of pages.
\<close>

datatype page_op = ShowPage Identifier View bool bool | HidePage Identifier

fun apply_op :: "page_op \<Rightarrow> App \<Rightarrow> App" where
  "apply_op (ShowPage view page resize visable) a = AddPage view page resize visable a"
| "apply_op (HidePage view) a = RemovePage view a"

fun run :: "page_op list \<Rightarrow> App \<Rightarrow> App" where
  "run [] a = a"
| "run (x # xs) a = run xs (apply_op x a)"

definition focus_stack :: "App \<Rightarrow> Primitive list" where
  "focus_stack a = (case previousFocus a of None \<Rightarrow> [] | Some p \<Rightarrow> [p])"

text \<open>
  A sequence is matched when every hide closes a show of the same id that is still open
  and no show stays open at the end, so that it has as many hides as shows. The hides
  need not come in the reverse order of the shows. \<open>balanced opened\<close> checks this against
  the ids \<open>opened\<close> of the shows open so far.
\<close>

fun balanced :: "Identifier list \<Rightarrow> page_op list \<Rightarrow> bool" where
  "balanced opened [] = (opened = [])"
| "balanced opened (ShowPage view page resize visable # xs) = balanced (view # opened) xs"
| "balanced opened (HidePage view # xs) =
     (list_ex (\<lambda>v. v = view) opened \<and> balanced (remove1 view opened) xs)"

definition matched :: "page_op list \<Rightarrow> bool" where
  "matched xs = balanced [] xs"

text \<open>The ids a sequence shows, and the numbers of its shows and hides.\<close>

fun shown :: "page_op list \<Rightarrow> Identifier set" where
  "shown [] = {}"
| "shown (ShowPage view page resize visable # xs) = insert view (shown xs)"
| "shown (HidePage view # xs) = shown xs"

fun show_count :: "page_op list \<Rightarrow> nat" where
  "show_count [] = 0"
| "show_count (ShowPage view page resize visable # xs) = Suc (show_count xs)"
| "show_count (HidePage view # xs) = show_count xs"

fun hide_count :: "page_op list \<Rightarrow> nat" where
  "hide_count [] = 0"
| "hide_count (ShowPage view page resize visable # xs) = hide_count xs"
| "hide_count (HidePage view # xs) = Suc (hide_count xs)"

section \<open>The input bar\<close>

text \<open>
  \<^verbatim>\<open>InputBar\<close> (component package). The history file \<^verbatim>\<open>history.txt\<close> of the working
  directory is \<open>None\<close> while it does not exist. The operating system may refuse to open,
  read or write it; these refusals are inputs of the model.
\<close>

datatype os_error = OpenFailed | ReadFailed | WriteFailed

record filesystem =
  history_txt :: "string option"
  open_fails :: bool
  read_fails :: bool
  write_fails :: bool

text \<open>
  \<^verbatim>\<open>os.OpenFile\<close> with \<^verbatim>\<open>O_APPEND|O_CREATE|O_WRONLY\<close>: the file is created empty when it
  is missing.
\<close>

definition OpenFile :: "filesystem \<Rightarrow> os_error + filesystem" where
  "OpenFile fs =
     (if open_fails fs then Inl OpenFailed
      else Inr (case history_txt fs of
                  None \<Rightarrow> fs\<lparr>history_txt := Some []\<rparr>
                | Some c \<Rightarrow> fs))"

definition ReadFile :: "filesystem \<Rightarrow> os_error + string" where
  "ReadFile fs =
     (if read_fails fs then Inl ReadFailed
      else case history_txt fs of None \<Rightarrow> Inl ReadFailed | Some c \<Rightarrow> Inr c)"

text \<open>Writing through the handle opened for appending.\<close>

definition WriteString :: "string \<Rightarrow> filesystem \<Rightarrow> os_error + filesystem" where
  "WriteString s fs =
     (if write_fails fs then Inl WriteFailed
      else Inr (fs\<lparr>history_txt :=
                  Some ((case history_txt fs of None \<Rightarrow> [] | Some c \<Rightarrow> c) @ s)\<rparr>))"

text \<open>
  \<^verbatim>\<open>strings.Split(s, "\n")\<close>: the pieces between line feeds; a string without a line
  feed is one piece, the empty string included. The result is never empty, so the first
  branch of the inner distinction is never taken.
\<close>

fun Split :: "string \<Rightarrow> string list" where
  "Split [] = [[]]"
| "Split (c # cs) =
     (if c = CHR 0x0A then [] # Split cs
      else case Split cs of [] \<Rightarrow> [[c]] | l # ls \<Rightarrow> (c # l) # ls)"

definition LoadHistory :: "filesystem \<Rightarrow> os_error + string list" where
  "LoadHistory fs =
     (case ReadFile fs of
        Inl err \<Rightarrow> Inl err
      | Inr file \<Rightarrow> Inr (filter (\<lambda>line. line \<noteq> []) (Split file)))"

text \<open>The result is the file system after the call and the returned error, if any.\<close>

definition SaveToHistory :: "string \<Rightarrow> filesystem \<Rightarrow> filesystem \<times> os_error option" where
  "SaveToHistory text fs =
     (case OpenFile fs of
        Inl err \<Rightarrow> (fs, Some err)
      | Inr fs1 \<Rightarrow>
          (case LoadHistory fs1 of
             Inl err \<Rightarrow> (fs1, Some err)
           | Inr history \<Rightarrow>
               if list_ex (\<lambda>entry. entry = text) history then (fs1, None)
               else (case WriteString (text @ [CHR 0x0A]) fs1 of
                       Inl err \<Rightarrow> (fs1, Some err)
                     | Inr fs2 \<Rightarrow> (fs2, None))))"

text \<open>
  The bar with what its listener touches: the flag, the text typed into the embedded input
  field, the component manager's stack, the file system, the calls made to the
  requester's callbacks (oldest first) and the errors logged.

  Modelled from the spec: the component manager's \<^verbatim>\<open>PushComponent\<close> and
  \<^verbatim>\<open>PopComponent\<close> are not in the source; after the spec, enabling a component pushes
  it as the active input target and disabling pops it.
\<close>

datatype callback = accept string | reject

record InputBar =
  enabled :: bool
  GetText :: string
  ComponentManager :: "string list"
  files :: filesystem
  called :: "callback list"
  logged :: "os_error list"

definition InputBarComponent :: string where
  "InputBarComponent = ''InputBar''"

definition PushComponent :: "string \<Rightarrow> string list \<Rightarrow> string list" where
  "PushComponent c st = c # st"

definition PopComponent :: "string list \<Rightarrow> string list" where
  "PopComponent st = (case st of [] \<Rightarrow> [] | c # st' \<Rightarrow> st')"

definition IsEnabled :: "InputBar \<Rightarrow> bool" where
  "IsEnabled i = enabled i"

definition Enable :: "InputBar \<Rightarrow> InputBar" where
  "Enable i = i\<lparr>enabled := True,
                ComponentManager := PushComponent InputBarComponent (ComponentManager i)\<rparr>"

definition Disable :: "InputBar \<Rightarrow> InputBar" where
  "Disable i = i\<lparr>enabled := False, ComponentManager := PopComponent (ComponentManager i)\<rparr>"

definition Toggle :: "InputBar \<Rightarrow> InputBar" where
  "Toggle i = (if IsEnabled i then Disable i else Enable i)"

text \<open>
  What arrives on the listener's channel: a terminal key, or a value of another type,
  which the listener skips.
\<close>

datatype Key = KeyEsc | KeyEnter | KeyOther nat

datatype chan_msg = IsKey Key | NotKey

text \<open>The two updates the listener queues for the UI thread, run to completion.\<close>

definition on_esc :: "InputBar \<Rightarrow> InputBar" where
  "on_esc i = (let i1 = Disable i in i1\<lparr>called := called i1 @ [reject]\<rparr>)"

definition on_enter :: "InputBar \<Rightarrow> InputBar" where
  "on_enter i =
     (let i1 = Disable i;
          text = GetText i1;
          (fs, err) = SaveToHistory text (files i1);
          i2 = i1\<lparr>files := fs\<rparr>;
          i3 = (case err of None \<Rightarrow> i2 | Some er \<Rightarrow> i2\<lparr>logged := logged i2 @ [er]\<rparr>)
      in i3\<lparr>called := called i3 @ [accept text]\<rparr>)"

text \<open>
  One round of the listener's loop, and the loop over the messages received so far (the
  loop itself never ends: it blocks on the channel).
\<close>

fun listen :: "chan_msg \<Rightarrow> InputBar \<Rightarrow> InputBar" where
  "listen NotKey i = i"
| "listen (IsKey KeyEsc) i = on_esc i"
| "listen (IsKey KeyEnter) i = on_enter i"
| "listen (IsKey (KeyOther k)) i = i"

fun EventListener :: "chan_msg list \<Rightarrow> InputBar \<Rightarrow> InputBar" where
  "EventListener [] i = i"
| "EventListener (m # ms) i = EventListener ms (listen m i)"

section \<open>The data-access object\<close>

text \<open>
  \<^verbatim>\<open>Dao.UpdateDocument\<close> hands the document to the driver's \<^verbatim>\<open>InsertOne\<close>. A document
  is a list of fields; a collection is the list of its documents; the client maps a
  database and collection name to the collection. The driver inserts a document under
  its \<^verbatim>\<open>_id\<close> field, giving it a fresh one when it has none, and refuses an
  \<^verbatim>\<open>_id\<close> the collection already holds.
\<close>

datatype bson = ObjectID nat | String string

type_synonym document = "(string \<times> bson) list"

type_synonym client = "string \<times> string \<Rightarrow> document list"

datatype mongo_error = DuplicateKey

definition doc_id :: "document \<Rightarrow> bson option" where
  "doc_id d = map_of d ''_id''"

definition fresh_id :: "document list \<Rightarrow> bson" where
  "fresh_id ds =
     ObjectID (Suc (fold max (concat (map (\<lambda>d. case doc_id d of Some (ObjectID n) \<Rightarrow> [n] | _ \<Rightarrow> []) ds)) 0))"

definition InsertOne :: "string \<Rightarrow> string \<Rightarrow> document \<Rightarrow> client \<Rightarrow> client \<times> mongo_error option" where
  "InsertOne db collection d c =
     (let ds = c (db, collection)
      in case doc_id d of
           None \<Rightarrow> (c((db, collection) := ds @ [(''_id'', fresh_id ds) # d]), None)
         | Some k \<Rightarrow>
             if list_ex (\<lambda>d'. doc_id d' = Some k) ds then (c, Some DuplicateKey)
             else (c((db, collection) := ds @ [d]), None))"

definition UpdateDocument ::
    "string \<Rightarrow> string \<Rightarrow> bson \<Rightarrow> document \<Rightarrow> client \<Rightarrow> client \<times> mongo_error option" where
  "UpdateDocument db collection oid document c =
     (case InsertOne db collection document c of
        (c', Some err) \<Rightarrow> (c', Some err)
      | (c', None) \<Rightarrow> (c', None))"

section \<open>Sample states\<close>

text \<open>
  Concrete inputs on which the theorems below are exercised. \<open>fresh_app\<close> is the state
  \<^verbatim>\<open>NewApp\<close> returns for the default style; \<open>rooted_app\<close> is that state after the page
  container was made the root, so that the container itself holds the focus. \<open>root_app\<close>
  has a base view on the root page of a container that holds the focus through it;
  \<open>side_app\<close> is reached from \<open>root_app\<close> by showing the help panel and giving the focus
  back to the base view.
\<close>

definition base_view :: View where
  "base_view = View 1 ''Content''"

definition overlay_A :: View where
  "overlay_A = View 2 ''DocPeeker''"

definition overlay_B :: View where
  "overlay_B = View 3 ''DocModifier''"

definition help_view :: View where
  "help_view = View 4 ''Help''"

definition fresh_app :: App where
  "fresh_app =
     \<lparr>focus = None, pages = [], boxFocus = False, setFocus = False,
      pagesStyle = Some (Styles ''default'' False),
      mainStyles = Some (Styles ''default'' False), broadcasts = [],
      styles = Some (Styles ''default'' False),
      config = \<lparr>CurrentStyle = ''default'', BetterSymbols = False\<rparr>,
      previousFocus = None\<rparr>"

definition rooted_app :: App where
  "rooted_app = SetRoot ''Pages'' fresh_app"

definition root_app :: App where
  "root_app =
     \<lparr>focus = Some (Leaf base_view),
      pages = [\<lparr>Name = ''Root'', Item = base_view, Resize = True, Visible = True\<rparr>],
      boxFocus = False, setFocus = True, pagesStyle = Some (Styles ''default'' False),
      mainStyles = Some (Styles ''default'' False), broadcasts = [],
      styles = Some (Styles ''default'' False),
      config = \<lparr>CurrentStyle = ''default'', BetterSymbols = False\<rparr>,
      previousFocus = None\<rparr>"

definition side_app :: App where
  "side_app = GiveBackFocus (AddPage ''Help'' help_view True True root_app)"

definition working_env :: env where
  "working_env =
     \<lparr>UpdateConfig = (\<lambda>c. None),
      LoadStyles = (\<lambda>name symbols. (Some (Styles name symbols), None)),
      LoadKeybindings = None\<rparr>"

definition failing_env :: env where
  "failing_env =
     \<lparr>UpdateConfig = (\<lambda>c. Some (Error ''config file is read-only'')),
      LoadStyles = (\<lambda>name symbols. (Some (Styles name symbols), None)),
      LoadKeybindings = None\<rparr>"

definition empty_history :: filesystem where
  "empty_history =
     \<lparr>history_txt = Some [], open_fails = False, read_fails = False, write_fails = False\<rparr>"

definition users_client :: client where
  "users_client =
     (\<lambda>k. if k = (''shop'', ''users'')
          then [[(''_id'', ObjectID 1), (''name'', String ''old'')]]
          else [])"

section \<open>Facts about the page container\<close>

lemma topItem_append:
  "topItem (ps @ [pg]) = (if Visible pg then Some (Item pg) else topItem ps)"
  by (simp add: topItem_def)

lemma remove_page_absent:
  "\<not> list_ex (\<lambda>pg. Name pg = n) ps \<Longrightarrow> remove_page n ps = ps"
  by (induction ps) auto

lemma find_absent:
  "\<not> list_ex (\<lambda>pg. Name pg = n) ps \<Longrightarrow> find (\<lambda>pg. Name pg = n) ps = None"
  by (induction ps) auto




lemma names_ensure_visible: "map Name (ensure_visible ps) = map Name ps"
  by (induction ps rule: ensure_visible.induct) auto

lemma names_remove_page: "map Name (remove_page n ps) = remove1 n (map Name ps)"
  by (induction ps) auto


lemma pages_take_focus: "pages (take_focus p a) = pages a"
  by (simp add: take_focus_def Blur_def split: option.splits Primitive.splits)

lemma previousFocus_take_focus: "previousFocus (take_focus p a) = previousFocus a"
  by (simp add: take_focus_def Blur_def split: option.splits Primitive.splits)

lemma focus_take_focus: "focus (take_focus p a) = Some p"
  by (simp add: take_focus_def)


lemma broadcasts_take_focus: "broadcasts (take_focus p a) = broadcasts a"
  by (simp add: take_focus_def Blur_def split: option.splits Primitive.splits)

lemma take_focus_same: "focus a = Some (Leaf v) \<Longrightarrow> take_focus (Leaf v) a = a"
  by (simp add: take_focus_def Blur_def)

lemma pages_Pages_Focus: "pages (Pages_Focus a) = pages a"
  by (simp add: Pages_Focus_def pages_take_focus split: option.splits)

lemma previousFocus_Pages_Focus: "previousFocus (Pages_Focus a) = previousFocus a"
  by (simp add: Pages_Focus_def previousFocus_take_focus split: option.splits)

lemma broadcasts_Pages_Focus: "broadcasts (Pages_Focus a) = broadcasts a"
  by (simp add: Pages_Focus_def broadcasts_take_focus split: option.splits)


lemma focus_Pages_Focus:
  "focus (Pages_Focus a) =
     (if setFocus a then (case topItem (pages a) of None \<Rightarrow> focus a | Some t \<Rightarrow> Some (Leaf t))
      else focus a)"
  by (simp add: Pages_Focus_def focus_take_focus split: option.splits)

lemma pages_Application_SetFocus: "pages (Application_SetFocus p a) = pages a"
  by (simp add: Application_SetFocus_def pages_take_focus pages_Pages_Focus
      split: Primitive.splits)

lemma broadcasts_Application_SetFocus: "broadcasts (Application_SetFocus p a) = broadcasts a"
  by (simp add: Application_SetFocus_def broadcasts_take_focus broadcasts_Pages_Focus
      split: Primitive.splits)

lemma previousFocus_Application_SetFocus:
  "previousFocus (Application_SetFocus p a) = previousFocus a"
  by (simp add: Application_SetFocus_def previousFocus_take_focus previousFocus_Pages_Focus
      split: Primitive.splits)

lemma focus_Application_SetFocus:
  "focus (Application_SetFocus p a) =
     (case p of
        Leaf v \<Rightarrow> Some p
      | PagesBox i \<Rightarrow> (case topItem (pages a) of None \<Rightarrow> Some p | Some t \<Rightarrow> Some (Leaf t)))"
  by (simp add: Application_SetFocus_def focus_take_focus focus_Pages_Focus pages_take_focus
      split: Primitive.splits option.splits)



section \<open>Facts about the wrappers\<close>

lemma focus_SetFocus:
  "focus (SetFocus p a) =
     (case p of
        Leaf v \<Rightarrow> Some p
      | PagesBox i \<Rightarrow> (case topItem (pages a) of None \<Rightarrow> Some p | Some t \<Rightarrow> Some (Leaf t)))"
  by (simp add: SetFocus_def FocusChanged_def Broadcast_def focus_Application_SetFocus
      split: Primitive.splits option.splits)

lemma previousFocus_SetFocus: "previousFocus (SetFocus p a) = focus a"
  by (simp add: SetFocus_def FocusChanged_def Broadcast_def previousFocus_Application_SetFocus
      GetFocus_def)

lemma pages_SetFocus: "pages (SetFocus p a) = pages a"
  by (simp add: SetFocus_def FocusChanged_def Broadcast_def pages_Application_SetFocus)

lemma broadcasts_SetFocus:
  "broadcasts (SetFocus p a) =
     broadcasts a @ [EventMsg manager_FocusChanged (Some (GetIdentifier p))]"
  by (simp add: SetFocus_def FocusChanged_def Broadcast_def broadcasts_Application_SetFocus)


lemma pages_GiveBackFocus: "pages (GiveBackFocus a) = pages a"
  by (simp add: GiveBackFocus_def pages_SetFocus split: option.splits)

lemma previousFocus_GiveBackFocus: "previousFocus (GiveBackFocus a) = None"
  by (simp add: GiveBackFocus_def split: option.splits)


lemma pages_AddPage:
  "pages (AddPage view page resize visable a) =
     remove_page view (pages a) @
       [\<lparr>Name = view, Item = page, Resize = resize, Visible = visable\<rparr>]"
  by (simp add: AddPage_def tview_AddPage_def SetPreviousFocus_def Let_def pages_Pages_Focus
      FocusChanged_def Broadcast_def)

lemma previousFocus_AddPage: "previousFocus (AddPage view page resize visable a) = focus a"
  by (simp add: AddPage_def tview_AddPage_def SetPreviousFocus_def Let_def
      previousFocus_Pages_Focus FocusChanged_def Broadcast_def GetFocus_def)


lemma focus_AddPage_visible:
  "focus (AddPage view page resize True a) =
     (if Pages_HasFocus a \<and> setFocus a then Some (Leaf page) else focus a)"
  by (simp add: AddPage_def tview_AddPage_def SetPreviousFocus_def Let_def Pages_HasFocus_def
      HasFocus_def focus_Pages_Focus topItem_append FocusChanged_def Broadcast_def)

lemma broadcasts_AddPage_visible:
  "broadcasts (AddPage view page resize True a) =
     (if focus (AddPage view page resize True a) = Some (Leaf page)
      then broadcasts a @ [EventMsg manager_FocusChanged (Some (viewIdentifier page))]
      else broadcasts a)"
  by (simp add: AddPage_def tview_AddPage_def SetPreviousFocus_def Let_def HasFocus_def
      broadcasts_Pages_Focus FocusChanged_def Broadcast_def)

lemma pages_RemovePage:
  "pages (RemovePage view a) =
     (if (case find (\<lambda>pg. Name pg = view) (pages a) of None \<Rightarrow> False | Some pg \<Rightarrow> Visible pg)
      then ensure_visible (remove_page view (pages a))
      else remove_page view (pages a))"
  by (simp add: RemovePage_def pages_GiveBackFocus tview_RemovePage_def Let_def
      pages_Pages_Focus)

lemma previousFocus_RemovePage: "previousFocus (RemovePage view a) = None"
  by (simp add: RemovePage_def previousFocus_GiveBackFocus)


lemma tview_RemovePage_absent:
  "\<not> HasPage view a \<Longrightarrow>
   tview_RemovePage view a = (if Pages_HasFocus a then Pages_Focus a else a)"
  by (simp add: HasPage_def tview_HasPage_def tview_RemovePage_def Let_def find_absent
      remove_page_absent)

lemmas sample_defs = base_view_def overlay_A_def overlay_B_def help_view_def root_app_def
  side_app_def fresh_app_def rooted_app_def

lemmas wrapper_defs = AddPage_def RemovePage_def tview_AddPage_def tview_RemovePage_def
  SetPreviousFocus_def Pages_HasFocus_def HasFocus_def Pages_Focus_def topItem_def
  Application_SetFocus_def take_focus_def Blur_def SetRoot_def FocusChanged_def Broadcast_def
  GetFocus_def GiveBackFocus_def SetFocus_def focus_stack_def HasPage_def tview_HasPage_def
  Let_def

section \<open>Nested overlays\<close>




section \<open>Showing a page\<close>

text \<open>
  C2 (amended). For every call \<^verbatim>\<open>ShowPage(id, view, resizable, visible)\<close> with
  \<open>visible = true\<close>: the primitive focused before the call becomes the recorded previous
  focus, replacing whatever was recorded; the page is the last entry of the Page Stack,
  an earlier entry of the same id being dropped; the focus moves to the new view exactly
  when the page container held the focus, through the view of one of its pages or through
  its own box, and had its delegate; and a FocusChanged event carrying the new view's
  identity is broadcast exactly when the new view holds the focus after the call.
\<close>

theorem AddPage_visible_effect:
  "previousFocus (AddPage view page resize True a) = focus a \<and>
   focus_stack (AddPage view page resize True a) =
     (case focus a of None \<Rightarrow> [] | Some f \<Rightarrow> [f]) \<and>
   pages (AddPage view page resize True a) =
     remove_page view (pages a) @
       [\<lparr>Name = view, Item = page, Resize = resize, Visible = True\<rparr>] \<and>
   focus (AddPage view page resize True a) =
     (if (list_ex (\<lambda>pg. focus a = Some (Leaf (Item pg))) (pages a) \<or> boxFocus a) \<and> setFocus a
      then Some (Leaf page) else focus a) \<and>
   broadcasts (AddPage view page resize True a) =
     (if focus (AddPage view page resize True a) = Some (Leaf page)
      then broadcasts a @ [EventMsg manager_FocusChanged (Some (viewIdentifier page))]
      else broadcasts a)"
  using focus_AddPage_visible[of view page resize a]
    broadcasts_AddPage_visible[of view page resize a]
  by (simp add: previousFocus_AddPage pages_AddPage focus_stack_def Pages_HasFocus_def
      HasFocus_def)

text \<open>
  When the page container was made the root before any page exists, the container itself
  holds the focus; the first page shown takes the focus from it, the container is
  recorded as previous focus, and the event is broadcast.
\<close>

theorem AddPage_visible_effect_witness:
  "focus rooted_app = Some (PagesBox ''Pages'') \<and> boxFocus rooted_app \<and>
   focus (AddPage ''Root'' base_view True True rooted_app) = Some (Leaf base_view) \<and>
   previousFocus (AddPage ''Root'' base_view True True rooted_app) = Some (PagesBox ''Pages'') \<and>
   broadcasts (AddPage ''Root'' base_view True True rooted_app) =
     [EventMsg manager_FocusChanged (Some ''Content'')]"
proof -
  have r: "focus rooted_app = Some (PagesBox ''Pages'')" "boxFocus rooted_app"
    "setFocus rooted_app" "pages rooted_app = []" "broadcasts rooted_app = []"
    by (simp_all add: sample_defs SetRoot_def Application_SetFocus_def take_focus_def
        Pages_Focus_def topItem_def)
  from AddPage_visible_effect [of "''Root''" base_view True rooted_app] r
  show ?thesis by (simp add: base_view_def)
qed

text \<open>
  The claim as stated has the captured view pushed onto the Focus Stack. With overlay A
  shown and focused, the base view is recorded; showing B records A in its place, and the
  base view is no longer recorded.
\<close>

theorem AddPage_overwrites_previousFocus:
  "focus (AddPage ''DocPeeker'' overlay_A True True root_app) = Some (Leaf overlay_A) \<and>
   focus_stack (AddPage ''DocPeeker'' overlay_A True True root_app) = [Leaf base_view] \<and>
   focus_stack (AddPage ''DocModifier'' overlay_B True True
                  (AddPage ''DocPeeker'' overlay_A True True root_app)) = [Leaf overlay_A] \<and>
   focus_stack (AddPage ''DocModifier'' overlay_B True True
                  (AddPage ''DocPeeker'' overlay_A True True root_app))
     \<noteq> Leaf overlay_A # focus_stack (AddPage ''DocPeeker'' overlay_A True True root_app)"
  by (simp add: sample_defs wrapper_defs)

section \<open>Hiding a page that is not shown\<close>

text \<open>
  C3 (amended). \<^verbatim>\<open>HidePage(id)\<close> for an id that is not in the Page Stack leaves the
  Page Stack unchanged and leaves no previous focus recorded. If none was recorded, the
  call does what the page container does on its own: it refocuses when it holds the
  focus, and nothing else changes; the whole state is unchanged when the container does
  not hold the focus, has no delegate, or its top visible page is already focused. If a
  previous focus was recorded, a FocusChanged event carrying its identity is broadcast
  and it gets the focus: a recorded view keeps it, the recorded page container passes it
  on to the view of its top visible page.
\<close>

theorem RemovePage_unknown_page:
  assumes "\<not> HasPage view a"
  shows "pages (RemovePage view a) = pages a \<and>
         previousFocus (RemovePage view a) = None \<and>
         (case previousFocus a of
            None \<Rightarrow> RemovePage view a = (if Pages_HasFocus a then Pages_Focus a else a)
          | Some p \<Rightarrow>
              focus (RemovePage view a) =
                (case p of
                   Leaf v \<Rightarrow> Some p
                 | PagesBox i \<Rightarrow>
                     (case topItem (pages a) of None \<Rightarrow> Some p | Some t \<Rightarrow> Some (Leaf t))) \<and>
              broadcasts (RemovePage view a) =
                broadcasts a @ [EventMsg manager_FocusChanged (Some (GetIdentifier p))]) \<and>
         (previousFocus a = None \<and>
          (\<not> Pages_HasFocus a \<or> \<not> setFocus a \<or>
           map_option Leaf (topItem (pages a)) = focus a)
            \<longrightarrow> RemovePage view a = a)"
proof -
  define a' where "a' = tview_RemovePage view a"
  have a': "a' = (if Pages_HasFocus a then Pages_Focus a else a)"
    unfolding a'_def using assms by (rule tview_RemovePage_absent)
  have pg: "pages a' = pages a" and pf: "previousFocus a' = previousFocus a"
    and bc: "broadcasts a' = broadcasts a"
    by (simp_all add: a' pages_Pages_Focus previousFocus_Pages_Focus broadcasts_Pages_Focus)
  have 1: "pages (RemovePage view a) = pages a"
    by (simp add: RemovePage_def a'_def[symmetric] pages_GiveBackFocus pg)
  have 2: "previousFocus (RemovePage view a) = None"
    by (rule previousFocus_RemovePage)
  have 3: "RemovePage view a = (if Pages_HasFocus a then Pages_Focus a else a)"
    if "previousFocus a = None"
    using that pf by (simp add: RemovePage_def a'_def[symmetric] GiveBackFocus_def) (simp add: a')
  have 4: "focus (RemovePage view a) =
                (case p of
                   Leaf v \<Rightarrow> Some p
                 | PagesBox i \<Rightarrow>
                     (case topItem (pages a) of None \<Rightarrow> Some p | Some t \<Rightarrow> Some (Leaf t))) \<and>
              broadcasts (RemovePage view a) =
                broadcasts a @ [EventMsg manager_FocusChanged (Some (GetIdentifier p))]"
    if "previousFocus a = Some p" for p
    using that pf pg bc
    by (simp add: RemovePage_def a'_def[symmetric] GiveBackFocus_def focus_SetFocus
        broadcasts_SetFocus split: Primitive.splits)
  have 5: "RemovePage view a = a"
    if "previousFocus a = None"
      and "\<not> Pages_HasFocus a \<or> \<not> setFocus a \<or> map_option Leaf (topItem (pages a)) = focus a"
  proof (cases "Pages_HasFocus a \<and> setFocus a")
    case False
    then show ?thesis using 3[OF that(1)] by (auto simp: Pages_Focus_def)
  next
    case True
    with that(2) have t: "map_option Leaf (topItem (pages a)) = focus a" by blast
    show ?thesis
    proof (cases "topItem (pages a)")
      case None
      with t have "focus a = None" by simp
      with True have "boxFocus a"
        by (auto simp: Pages_HasFocus_def HasFocus_def list_ex_iff)
      then show ?thesis using 3[OF that(1)] True None by (simp add: Pages_Focus_def)
    next
      case (Some v)
      with t have "focus a = Some (Leaf v)" by simp
      then show ?thesis
        using 3[OF that(1)] True Some by (simp add: Pages_Focus_def take_focus_same)
    qed
  qed
  show ?thesis
    using 1 2 3 4 5 by (auto split: option.splits)
qed

theorem RemovePage_unknown_page_witness:
  "HasPage ''Help'' root_app = False \<and> previousFocus root_app = None \<and>
   map_option Leaf (topItem (pages root_app)) = focus root_app \<and>
   RemovePage ''Help'' root_app = root_app"
proof -
  have h: "\<not> HasPage ''Help'' root_app"
    by (simp add: sample_defs HasPage_def tview_HasPage_def)
  have n: "previousFocus root_app = None"
    and t: "map_option Leaf (topItem (pages root_app)) = focus root_app"
    by (simp_all add: sample_defs topItem_def)
  from RemovePage_unknown_page [OF h] n t have "RemovePage ''Help'' root_app = root_app"
    by blast
  with h n t show ?thesis by simp
qed

text \<open>
  The claim as stated fails when a previous focus is recorded. After overlay A was shown
  from the base view, hiding the help page, which was never shown, takes the focus from A
  back to the base view and clears the recorded previous focus.
\<close>

theorem RemovePage_unknown_page_changes_focus:
  "HasPage ''Help'' (AddPage ''DocPeeker'' overlay_A True True root_app) = False \<and>
   focus (AddPage ''DocPeeker'' overlay_A True True root_app) = Some (Leaf overlay_A) \<and>
   focus (RemovePage ''Help'' (AddPage ''DocPeeker'' overlay_A True True root_app))
     = Some (Leaf base_view) \<and>
   focus_stack (AddPage ''DocPeeker'' overlay_A True True root_app) = [Leaf base_view] \<and>
   focus_stack (RemovePage ''Help'' (AddPage ''DocPeeker'' overlay_A True True root_app)) = [] \<and>
   overlay_A \<noteq> base_view"
  by (simp add: sample_defs wrapper_defs)

section \<open>Setting and giving back the focus\<close>

text \<open>
  C4. For every primitive \<open>v\<close> and every prior focus holder, \<^verbatim>\<open>SetFocus(v)\<close> followed
  at once by \<^verbatim>\<open>GiveBackFocus()\<close> leaves the focus on the holder that had it immediately
  before \<^verbatim>\<open>SetFocus\<close> was called: on every view \<open>f\<close>, and on the page container itself
  when it held the focus, which it does only while none of its pages is visible.
\<close>

theorem SetFocus_GiveBackFocus_restores:
  "(focus a = Some (Leaf f) \<longrightarrow> focus (GiveBackFocus (SetFocus v a)) = Some (Leaf f)) \<and>
   (focus a = Some (PagesBox i) \<and> topItem (pages a) = None \<longrightarrow>
      focus (GiveBackFocus (SetFocus v a)) = Some (PagesBox i))"
  by (simp add: GiveBackFocus_def previousFocus_SetFocus focus_SetFocus pages_SetFocus)

theorem SetFocus_GiveBackFocus_restores_witness:
  "focus root_app = Some (Leaf base_view) \<and>
   focus (GiveBackFocus (SetFocus (Leaf overlay_A) root_app)) = Some (Leaf base_view) \<and>
   focus rooted_app = Some (PagesBox ''Pages'') \<and> topItem (pages rooted_app) = None \<and>
   focus (GiveBackFocus (SetFocus (Leaf overlay_A) rooted_app)) = Some (PagesBox ''Pages'')"
proof -
  have r: "focus root_app = Some (Leaf base_view)"
    by (simp add: root_app_def)
  have q: "focus rooted_app = Some (PagesBox ''Pages'')" "topItem (pages rooted_app) = None"
    by (simp_all add: sample_defs SetRoot_def Application_SetFocus_def take_focus_def
        Pages_Focus_def topItem_def)
  from SetFocus_GiveBackFocus_restores [of root_app base_view "Leaf overlay_A"] r
  have 1: "focus (GiveBackFocus (SetFocus (Leaf overlay_A) root_app)) = Some (Leaf base_view)"
    by simp
  from SetFocus_GiveBackFocus_restores [of rooted_app _ "Leaf overlay_A" "''Pages''"] q
  have 2: "focus (GiveBackFocus (SetFocus (Leaf overlay_A) rooted_app)) = Some (PagesBox ''Pages'')"
    by simp
  from r q 1 2 show ?thesis by simp
qed

section \<open>A style change that fails\<close>

text \<open>
  C5 (amended). When a style change is requested after startup and the reload fails
  (persisting the configuration or loading the styles returns an error), \<^verbatim>\<open>SetStyle\<close>
  returns an error rather than terminating; the styling of the Page Stack and the
  toolkit's main styles are unchanged, no StyleChanged event is broadcast, pages and
  focus are untouched, and when it is the persisting that failed the loaded styles are
  unchanged too. The configured style name is not kept: it is the requested name.
\<close>

theorem SetStyle_failure_recoverable:
  assumes "UpdateConfig e ((config a)\<lparr>CurrentStyle := styleName\<rparr>) \<noteq> None \<or>
           snd (LoadStyles e styleName (BetterSymbols (config a))) \<noteq> None"
  shows "\<exists>a' err. SetStyle e styleName a = Returned (a', Some err) \<and>
           config a' = (config a)\<lparr>CurrentStyle := styleName\<rparr> \<and>
           pagesStyle a' = pagesStyle a \<and> mainStyles a' = mainStyles a \<and>
           broadcasts a' = broadcasts a \<and> pages a' = pages a \<and> focus a' = focus a \<and>
           previousFocus a' = previousFocus a \<and>
           (UpdateConfig e ((config a)\<lparr>CurrentStyle := styleName\<rparr>) \<noteq> None
              \<longrightarrow> styles a' = styles a)"
  using assms
  by (auto simp: SetStyle_def Let_def split: option.splits prod.splits)

theorem SetStyle_failure_recoverable_witness:
  "UpdateConfig failing_env ((config root_app)\<lparr>CurrentStyle := ''dark''\<rparr>)
     = Some (Error ''config file is read-only'') \<and>
   SetStyle failing_env ''dark'' root_app \<noteq> Panic \<and>
   SetStyle failing_env ''dark'' root_app \<noteq> Fatal ''Failed to load styles''"
proof -
  have h: "UpdateConfig failing_env ((config root_app)\<lparr>CurrentStyle := ''dark''\<rparr>)
      = Some (Error ''config file is read-only'')"
    by (simp add: failing_env_def)
  then have "UpdateConfig failing_env ((config root_app)\<lparr>CurrentStyle := ''dark''\<rparr>) \<noteq> None \<or>
      snd (LoadStyles failing_env ''dark'' (BetterSymbols (config root_app))) \<noteq> None"
    by simp
  from SetStyle_failure_recoverable [OF this]
  obtain a' err where "SetStyle failing_env ''dark'' root_app = Returned (a', Some err)"
    by blast
  with h show ?thesis by simp
qed

text \<open>
  The claim as stated keeps the configured style name. With a configuration file that
  cannot be written, the request for the style \<open>dark\<close> returns the error, and the
  configured style name is \<open>dark\<close> where it was \<open>default\<close>.
\<close>

theorem SetStyle_failure_changes_style_name:
  "SetStyle failing_env ''dark'' root_app =
     Returned (root_app\<lparr>config := \<lparr>CurrentStyle = ''dark'', BetterSymbols = False\<rparr>\<rparr>,
               Some (Error ''config file is read-only'')) \<and>
   CurrentStyle (config (root_app\<lparr>config := \<lparr>CurrentStyle = ''dark'', BetterSymbols = False\<rparr>\<rparr>))
     \<noteq> CurrentStyle (config root_app)"
  by (simp add: SetStyle_def failing_env_def root_app_def Let_def)

section \<open>Depths of the two stacks\<close>

lemma names_AddPage:
  assumes "distinct (map Name (pages a))"
  shows "distinct (map Name (pages (AddPage view page resize visable a))) \<and>
         set (map Name (pages (AddPage view page resize visable a))) =
           insert view (set (map Name (pages a)))"
proof -
  have "map Name (pages (AddPage view page resize visable a)) =
      remove1 view (map Name (pages a)) @ [view]"
    by (simp add: pages_AddPage names_remove_page)
  with assms show ?thesis
    by (auto simp del: set_map distinct_map map_append simp add: set_remove1_eq)
qed

lemma names_RemovePage:
  assumes "distinct (map Name (pages a))"
  shows "distinct (map Name (pages (RemovePage view a))) \<and>
         set (map Name (pages (RemovePage view a))) = set (map Name (pages a)) - {view}"
proof -
  have "map Name (pages (RemovePage view a)) = remove1 view (map Name (pages a))"
    by (simp add: pages_RemovePage names_remove_page names_ensure_visible)
  with assms show ?thesis
    by (simp del: set_map distinct_map add: set_remove1_eq)
qed

lemma set_insert_remove1: "x \<in> set xs \<Longrightarrow> set xs = insert x (set (remove1 x xs))"
  by (induction xs) auto

text \<open>
  A sequence that closes the open shows \<open>opened\<close> and all its own removes from the Page
  Stack every id it shows and every id open before it.
\<close>

lemma balanced_names:
  "balanced opened xs \<Longrightarrow> distinct (map Name (pages a)) \<Longrightarrow>
   distinct (map Name (pages (run xs a))) \<and>
   set (map Name (pages (run xs a))) = set (map Name (pages a)) - set opened - shown xs"
proof (induction opened xs arbitrary: a rule: balanced.induct)
  case (1 opened)
  then show ?case by simp
next
  case (2 opened view page resize visable xs)
  from names_AddPage[OF 2(3), of view page resize visable]
    2(1)[OF _ conjunct1[OF names_AddPage[OF 2(3)]]] 2(2)
  show ?case by (auto simp del: set_map distinct_map)
next
  case (3 opened view xs)
  then have mem: "view \<in> set opened" and b: "balanced (remove1 view opened) xs"
    by (auto simp: list_ex_iff)
  have "set opened = insert view (set (remove1 view opened))"
    using mem by (rule set_insert_remove1)
  with names_RemovePage[OF 3(3), of view]
    3(1)[OF b conjunct1[OF names_RemovePage[OF 3(3)]]]
  show ?case by (auto simp del: set_map distinct_map)
qed

lemma balanced_previousFocus:
  "balanced opened xs \<Longrightarrow> xs \<noteq> [] \<Longrightarrow> previousFocus (run xs a) = None"
proof (induction opened xs arbitrary: a rule: balanced.induct)
  case (1 opened)
  then show ?case by simp
next
  case (2 opened view page resize visable xs)
  then have "xs \<noteq> []" by auto
  with 2 show ?case by simp
next
  case (3 opened view xs)
  then have b: "balanced (remove1 view opened) xs" by simp
  show ?case
  proof (cases "xs = []")
    case True
    then show ?thesis by (simp add: previousFocus_RemovePage)
  next
    case False
    with 3(1)[OF b] show ?thesis by simp
  qed
qed

lemma balanced_counts:
  "balanced opened xs \<Longrightarrow> length opened + show_count xs = hide_count xs"
proof (induction opened xs rule: balanced.induct)
  case (1 opened)
  then show ?case by simp
next
  case (2 opened view page resize visable xs)
  then show ?case by simp
next
  case (3 opened view xs)
  then have mem: "view \<in> set opened" and b: "balanced (remove1 view opened) xs"
    by (auto simp: list_ex_iff)
  from mem have "length opened = Suc (length (remove1 view opened))"
    by (simp add: length_remove1) (cases opened; simp)
  with 3(1)[OF b] show ?case by simp
qed

lemma depth_apply_op:
  "length (focus_stack (apply_op x a)) \<le> length (pages (apply_op x a))"
  by (cases x)
    (simp_all add: focus_stack_def pages_AddPage previousFocus_RemovePage split: option.splits)

lemma depth_run:
  "length (focus_stack a) \<le> length (pages a) \<Longrightarrow>
   length (focus_stack (run xs a)) \<le> length (pages (run xs a))"
  by (induction xs arbitrary: a) (simp_all add: depth_apply_op)

text \<open>The state \<^verbatim>\<open>NewApp\<close> returns has no page and no previous focus recorded.\<close>

lemma NewApp_initial:
  "NewApp e cfg = Returned a0 \<Longrightarrow> pages a0 = [] \<and> previousFocus a0 = None"
  by (auto simp: NewApp_def split: prod.splits option.splits)

text \<open>
  C6. Start from a state in which no previous focus is recorded and the pages have
  distinct names; the state \<^verbatim>\<open>NewApp\<close> returns is one, and so is every state with the
  focus on a page and nothing recorded. For all sequences of \<^verbatim>\<open>ShowPage\<close> and
  \<^verbatim>\<open>HidePage\<close> calls from there the Focus Stack is never deeper than the Page Stack;
  and after a matched sequence under new ids, which has as many hides as shows, both
  stacks are back at their initial depth.
\<close>

theorem stack_depths:
  assumes "previousFocus a = None" and "distinct (map Name (pages a))"
  shows "length (focus_stack (run xs a)) \<le> length (pages (run xs a)) \<and>
         (matched xs \<and> shown xs \<inter> set (map Name (pages a)) = {} \<longrightarrow>
            show_count xs = hide_count xs \<and>
            length (pages (run xs a)) = length (pages a) \<and>
            length (focus_stack (run xs a)) = length (focus_stack a))"
proof -
  have inv: "length (focus_stack (run xs a)) \<le> length (pages (run xs a))"
    by (rule depth_run) (simp add: focus_stack_def assms(1))
  have ret: "show_count xs = hide_count xs \<and>
       length (pages (run xs a)) = length (pages a) \<and>
       length (focus_stack (run xs a)) = length (focus_stack a)"
    if m: "matched xs" and new: "shown xs \<inter> set (map Name (pages a)) = {}"
  proof -
    from m have b: "balanced [] xs" by (simp add: matched_def)
    from balanced_counts[OF b] have c: "show_count xs = hide_count xs" by simp
    from balanced_names[OF b assms(2)] new
    have d: "distinct (map Name (pages (run xs a)))"
      and s: "set (map Name (pages (run xs a))) = set (map Name (pages a))"
      by auto
    have "length (map Name (pages (run xs a))) = card (set (map Name (pages (run xs a))))"
      using d by (simp only: distinct_card)
    also have "\<dots> = card (set (map Name (pages a)))"
      by (simp only: s)
    also have "\<dots> = length (map Name (pages a))"
      using assms(2) by (simp only: distinct_card)
    finally have l: "length (pages (run xs a)) = length (pages a)" by simp
    have "previousFocus (run xs a) = None"
    proof (cases "xs = []")
      case True
      then show ?thesis by (simp add: assms(1))
    next
      case False
      with b show ?thesis by (rule balanced_previousFocus)
    qed
    with c l show ?thesis by (simp add: assms(1) focus_stack_def)
  qed
  from inv ret show ?thesis by blast
qed

text \<open>
  From \<open>root_app\<close>, where the base view on the root page holds the focus: showing overlay
  A records the base view (Focus Stack at depth 1 under a Page Stack of depth 2); after
  the shows of A and B and the hides of A and B, in that order, the Page Stack is back at
  depth 1 and the Focus Stack at depth 0.
\<close>

theorem stack_depths_witness:
  "previousFocus root_app = None \<and>
   matched [ShowPage ''DocPeeker'' overlay_A True True,
            ShowPage ''DocModifier'' overlay_B True True,
            HidePage ''DocPeeker'', HidePage ''DocModifier''] \<and>
   focus_stack (run [ShowPage ''DocPeeker'' overlay_A True True] root_app) = [Leaf base_view] \<and>
   length (pages (run [ShowPage ''DocPeeker'' overlay_A True True] root_app)) = 2 \<and>
   length (pages (run [ShowPage ''DocPeeker'' overlay_A True True,
            ShowPage ''DocModifier'' overlay_B True True,
            HidePage ''DocPeeker'', HidePage ''DocModifier''] root_app)) = 1 \<and>
   length (focus_stack (run [ShowPage ''DocPeeker'' overlay_A True True,
            ShowPage ''DocModifier'' overlay_B True True,
            HidePage ''DocPeeker'', HidePage ''DocModifier''] root_app)) = 0"
proof -
  let ?xs = "[ShowPage ''DocPeeker'' overlay_A True True,
            ShowPage ''DocModifier'' overlay_B True True,
            HidePage ''DocPeeker'', HidePage ''DocModifier'']"
  have n: "previousFocus root_app = None" and d: "distinct (map Name (pages root_app))"
    and l: "length (pages root_app) = 1" "length (focus_stack root_app) = 0"
    by (simp_all add: root_app_def focus_stack_def)
  have m: "matched ?xs"
    by (simp add: matched_def)
  have new: "shown ?xs \<inter> set (map Name (pages root_app)) = {}"
    by (simp add: root_app_def)
  have one: "focus_stack (run [ShowPage ''DocPeeker'' overlay_A True True] root_app) =
      [Leaf base_view]"
    "length (pages (run [ShowPage ''DocPeeker'' overlay_A True True] root_app)) = 2"
    by (simp_all add: focus_stack_def previousFocus_AddPage pages_AddPage root_app_def)
  from stack_depths [OF n d, of ?xs] m new l
  have "length (pages (run ?xs root_app)) = 1 \<and> length (focus_stack (run ?xs root_app)) = 0"
    by simp
  with n m one show ?thesis by blast
qed

section \<open>The input bar's listener\<close>

text \<open>
  C7. In the listener of the input bar, the cancel path (Esc) and the accept path (Enter)
  both disable the component: the flag is cleared and the component popped. The accept
  path hands the entered text to the accept callback; the cancel path calls the reject
  callback, which takes no data, and leaves the history file alone.
\<close>

theorem EventListener_esc_enter:
  "enabled (listen (IsKey KeyEsc) i) = False \<and>
   ComponentManager (listen (IsKey KeyEsc) i) = PopComponent (ComponentManager i) \<and>
   called (listen (IsKey KeyEsc) i) = called i @ [reject] \<and>
   files (listen (IsKey KeyEsc) i) = files i \<and>
   enabled (listen (IsKey KeyEnter) i) = False \<and>
   ComponentManager (listen (IsKey KeyEnter) i) = PopComponent (ComponentManager i) \<and>
   called (listen (IsKey KeyEnter) i) = called i @ [accept (GetText i)]"
  by (simp add: on_esc_def on_enter_def Disable_def Let_def split: prod.splits option.splits)

section \<open>Updating a document\<close>

text \<open>
  C8. \<^verbatim>\<open>UpdateDocument\<close> is to update the document identified by \<open>id\<close>. On a
  collection holding one document with id 1, the call for id 1 with a new body leaves
  that document as it was and appends a second document under a fresh id; when the body
  carries the id 1 itself, the driver refuses it as a duplicate key and nothing changes.
\<close>

theorem UpdateDocument_inserts:
  "fst (UpdateDocument ''shop'' ''users'' (ObjectID 1) [(''name'', String ''new'')]
          users_client) (''shop'', ''users'') =
     [[(''_id'', ObjectID 1), (''name'', String ''old'')],
      [(''_id'', ObjectID 2), (''name'', String ''new'')]] \<and>
   snd (UpdateDocument ''shop'' ''users'' (ObjectID 1) [(''name'', String ''new'')]
          users_client) = None \<and>
   UpdateDocument ''shop'' ''users'' (ObjectID 1)
       [(''_id'', ObjectID 1), (''name'', String ''new'')] users_client =
     (users_client, Some DuplicateKey)"
  by (simp add: UpdateDocument_def InsertOne_def users_client_def doc_id_def fresh_id_def
      Let_def)

section \<open>The history file\<close>

lemma Split_no_newline: "CHR 0x0A \<notin> set t \<Longrightarrow> Split t = [t]"
  by (induction t) auto

lemma Split_not_Nil: "Split t \<noteq> []"
  by (induction t) (auto split: list.splits)

lemma Split_append_newline: "Split (xs @ CHR 0x0A # ys) = Split xs @ Split ys"
proof (induction xs)
  case Nil
  then show ?case by simp
next
  case (Cons c cs)
  then show ?case using Split_not_Nil[of cs] by (auto split: list.splits)
qed

lemma Split_line_appended:
  assumes "c = [] \<or> last c = CHR 0x0A" and "CHR 0x0A \<notin> set t"
  shows "t \<in> set (Split (c @ t @ [CHR 0x0A]))"
proof (cases "c = []")
  case True
  then show ?thesis
    using Split_append_newline[of t "[]"] Split_no_newline[OF assms(2)] by simp
next
  case False
  with assms(1) obtain c' where c: "c = c' @ [CHR 0x0A]"
    by (metis append_butlast_last_id)
  have "Split (c @ t @ [CHR 0x0A]) = Split c' @ Split (t @ CHR 0x0A # [])"
    using Split_append_newline[of c' "t @ [CHR 0x0A]"] by (simp add: c)
  also have "\<dots> = Split c' @ [t] @ [[]]"
    using Split_append_newline[of t "[]"] Split_no_newline[OF assms(2)] by simp
  finally show ?thesis by simp
qed

text \<open>
  C10 (amended). Let the history file be one that can be opened and read. For every text
  that is an entry of the history (a non-empty line of the file), \<^verbatim>\<open>SaveToHistory(text)\<close>
  returns nil and leaves the file unchanged. For every non-empty text without a line feed,
  if the file can also be written and is missing, empty or ends in a line feed, a second
  \<^verbatim>\<open>SaveToHistory(text)\<close> returns nil and leaves the file as the first call left it.
\<close>

theorem SaveToHistory_idempotent:
  assumes "\<not> open_fails fs" and "\<not> read_fails fs"
  shows "(\<forall>h. LoadHistory fs = Inr h \<and> list_ex (\<lambda>entry. entry = text) h \<longrightarrow>
            SaveToHistory text fs = (fs, None)) \<and>
         (text \<noteq> [] \<and> CHR 0x0A \<notin> set text \<and> \<not> write_fails fs \<and>
          (case history_txt fs of None \<Rightarrow> True | Some c \<Rightarrow> c = [] \<or> last c = CHR 0x0A) \<longrightarrow>
            SaveToHistory text (fst (SaveToHistory text fs)) =
              (fst (SaveToHistory text fs), None))"
proof (intro conjI allI impI)
  fix h
  assume "LoadHistory fs = Inr h \<and> list_ex (\<lambda>entry. entry = text) h"
  then show "SaveToHistory text fs = (fs, None)"
    using assms
    by (auto simp: SaveToHistory_def OpenFile_def LoadHistory_def ReadFile_def
        split: option.splits if_splits)
next
  assume a: "text \<noteq> [] \<and> CHR 0x0A \<notin> set text \<and> \<not> write_fails fs \<and>
      (case history_txt fs of None \<Rightarrow> True | Some c \<Rightarrow> c = [] \<or> last c = CHR 0x0A)"
  define c where "c = (case history_txt fs of None \<Rightarrow> [] | Some c \<Rightarrow> c)"
  have cc: "c = [] \<or> last c = CHR 0x0A"
    using a by (auto simp: c_def split: option.splits)
  have mem: "text \<in> set (Split (c @ text @ [CHR 0x0A]))"
    using Split_line_appended[OF cc] a by simp
  show "SaveToHistory text (fst (SaveToHistory text fs)) = (fst (SaveToHistory text fs), None)"
  proof (cases "list_ex (\<lambda>entry. entry = text) (filter (\<lambda>line. line \<noteq> []) (Split c))")
    case True
    then show ?thesis
      using assms a
      by (auto simp: SaveToHistory_def OpenFile_def LoadHistory_def ReadFile_def
          WriteString_def c_def list_ex_iff split: option.splits)
  next
    case False
    then show ?thesis
      using assms a mem
      by (auto simp: SaveToHistory_def OpenFile_def LoadHistory_def ReadFile_def
          WriteString_def c_def list_ex_iff split: option.splits)
  qed
qed

theorem SaveToHistory_idempotent_witness:
  "open_fails empty_history = False \<and> read_fails empty_history = False \<and>
   write_fails empty_history = False \<and> history_txt empty_history = Some [] \<and>
   SaveToHistory ''{ name: 1 }'' (fst (SaveToHistory ''{ name: 1 }'' empty_history)) =
     (fst (SaveToHistory ''{ name: 1 }'' empty_history), None)"
proof -
  have f: "\<not> open_fails empty_history" "\<not> read_fails empty_history"
    "\<not> write_fails empty_history" "history_txt empty_history = Some []"
    by (simp_all add: empty_history_def)
  have t: "''{ name: 1 }'' \<noteq> [] \<and> CHR 0x0A \<notin> set ''{ name: 1 }''"
    by simp
  from SaveToHistory_idempotent [OF f(1,2), of "''{ name: 1 }''"] f(3,4) t
  have "SaveToHistory ''{ name: 1 }'' (fst (SaveToHistory ''{ name: 1 }'' empty_history)) =
     (fst (SaveToHistory ''{ name: 1 }'' empty_history), None)"
    by simp
  with f show ?thesis by simp
qed

text \<open>
  The claim as stated fails for the empty text. Saved to an empty history file it appends
  a line feed; the loaded history skips empty lines, so a second call appends another
  one, and the file after two calls is not the file after one.
\<close>

theorem SaveToHistory_empty_text_repeats:
  "SaveToHistory [] empty_history =
     (empty_history\<lparr>history_txt := Some [CHR 0x0A]\<rparr>, None) \<and>
   SaveToHistory [] (fst (SaveToHistory [] empty_history)) =
     (empty_history\<lparr>history_txt := Some [CHR 0x0A, CHR 0x0A]\<rparr>, None) \<and>
   fst (SaveToHistory [] (fst (SaveToHistory [] empty_history))) \<noteq>
     fst (SaveToHistory [] empty_history)"
  by (simp add: SaveToHistory_def OpenFile_def LoadHistory_def ReadFile_def WriteString_def
      empty_history_def)

end
